theory Spec2Isabelle
  imports Complex_Main "HOL-Library.Word" "HOL-Library.AList"
begin

section \<open>Surfaces and the platform\<close>

text \<open>
  The pipeline of \<^verbatim>\<open>src/services/psdProcessor.ts\<close> works on browser canvases. A canvas
  is a mutable object, so canvases live in a store and are passed around by reference
  (their index in the store); creating a canvas appends to the store. The bitmap of a
  canvas is kept as the byte sequence that \<^verbatim>\<open>getImageData(0, 0, width, height).data\<close>
  reads: four bytes (R, G, B, A) per pixel, row after row.
\<close>

type_synonym byte = "8 word"

record canvas =
  width :: nat
  height :: nat
  pixels :: "byte list"

text \<open>Every call of the canvas API that the code makes is also written to a log, in order.\<close>

datatype call =
    CreateCanvas nat nat
  | GetContext nat
  | NewImageData nat nat
  | PutImageData nat
  | GetImageData nat
  | DrawImage nat nat

record world =
  canvases :: "canvas list"
  calls :: "call list"

text \<open>
  What the browser may do to a call is a parameter: \<^verbatim>\<open>getContext('2d')\<close> may return null,
  and creating a canvas, building an \<^verbatim>\<open>ImageData\<close> (by \<^verbatim>\<open>new ImageData\<close> or \<^verbatim>\<open>getImageData\<close>)
  and drawing (\<^verbatim>\<open>putImageData\<close>, \<^verbatim>\<open>drawImage\<close>) may throw, for instance when out of memory.
  Each answer may depend on the dimensions of the canvas concerned. The PNG encoder
  (\<^verbatim>\<open>canvas.toBlob\<close>, which may hand back null) and the serialisation of the archive
  (\<^verbatim>\<open>zip.generateAsync\<close>, which may reject) belong to the platform as well.
\<close>

type_synonym blob = "byte list"

datatype entry = Folder | File blob

type_synonym archive = "(string \<times> entry) list"

record platform =
  context2d :: "nat \<Rightarrow> nat \<Rightarrow> bool"
  createThrows :: "nat \<Rightarrow> nat \<Rightarrow> bool"
  imageDataThrows :: "nat \<Rightarrow> nat \<Rightarrow> bool"
  drawThrows :: "nat \<Rightarrow> nat \<Rightarrow> bool"
  toBlob :: "canvas \<Rightarrow> blob option"
  generateAsync :: "archive \<Rightarrow> blob option"

definition perform :: "call \<Rightarrow> world \<Rightarrow> world" where
  "perform c s = s\<lparr>calls := calls s @ [c]\<rparr>"

text \<open>
  \<^verbatim>\<open>document.createElement('canvas')\<close> followed by the assignment of \<^verbatim>\<open>width\<close> and
  \<^verbatim>\<open>height\<close>: a new canvas of that size, every pixel transparent black.
\<close>

definition blank :: "nat \<Rightarrow> nat \<Rightarrow> canvas" where
  "blank w h = \<lparr>width = w, height = h, pixels = replicate (4 * w * h) 0\<rparr>"

definition alloc :: "nat \<Rightarrow> nat \<Rightarrow> world \<Rightarrow> world" where
  "alloc w h s = s\<lparr>canvases := canvases s @ [blank w h]\<rparr>"

definition overwrite :: "nat \<Rightarrow> canvas \<Rightarrow> world \<Rightarrow> world" where
  "overwrite r c s = s\<lparr>canvases := (canvases s)[r := c]\<rparr>"

text \<open>The record a decoded layer is read through: \<^verbatim>\<open>layer.canvas\<close>, \<^verbatim>\<open>layer.canvasData\<close>,
  \<^verbatim>\<open>layer.width\<close>, \<^verbatim>\<open>layer.height\<close>, \<^verbatim>\<open>layer.name\<close>. An absent field is \<open>None\<close>.\<close>

record layer =
  layer_canvas :: "nat option"
  layer_canvasData :: "byte list option"
  layer_width :: nat
  layer_height :: nat
  layer_name :: string

section \<open>imageDataToCanvas\<close>

definition PIXEL_LIMIT :: nat where
  "PIXEL_LIMIT = 48000000"

text \<open>
  The \<^verbatim>\<open>try\<close> block of \<^verbatim>\<open>imageDataToCanvas\<close>; every exception ends in its \<^verbatim>\<open>catch\<close>, which
  returns null. \<^verbatim>\<open>new ImageData(data, w, h)\<close> throws when \<open>data\<close> does not hold
  \<open>4 * w * h\<close> bytes, and when the platform says so.
\<close>

definition synthesize :: "platform \<Rightarrow> byte list \<Rightarrow> nat \<Rightarrow> nat \<Rightarrow> world \<Rightarrow> nat option \<times> world" where
  "synthesize p d w h s =
     (let s1 = perform (CreateCanvas w h) s in
      if createThrows p w h then (None, s1)
      else
        let r = length (canvases s1);
            s2 = perform (GetContext r) (alloc w h s1) in
        if \<not> context2d p w h then (None, s2)
        else
          let s3 = perform (NewImageData w h) s2 in
          if length d \<noteq> 4 * w * h \<or> imageDataThrows p w h then (None, s3)
          else
            let s4 = perform (PutImageData r) s3 in
            if drawThrows p w h then (None, s4)
            else (Some r, overwrite r \<lparr>width = w, height = h, pixels = d\<rparr> s4))"

definition imageDataToCanvas :: "platform \<Rightarrow> layer \<Rightarrow> world \<Rightarrow> nat option \<times> world" where
  "imageDataToCanvas p l s =
     (case layer_canvas l of
        Some c \<Rightarrow> (Some c, s)
      | None \<Rightarrow>
          (case layer_canvasData l of
             None \<Rightarrow> (None, s)
           | Some d \<Rightarrow>
               if layer_width l = 0 \<or> layer_height l = 0 then (None, s)
               else if layer_width l * layer_height l > PIXEL_LIMIT then (None, s)
               else synthesize p d (layer_width l) (layer_height l) s))"

section \<open>trimCanvas\<close>

definition TRIM_LIMIT :: nat where
  "TRIM_LIMIT = 16000000"

text \<open>The running bounding box of the scan: \<^verbatim>\<open>minX, minY, maxX, maxY, hasAlpha\<close>.\<close>

record bbox =
  minX :: nat
  minY :: nat
  maxX :: nat
  maxY :: nat
  hasAlpha :: bool

text \<open>
  \<^verbatim>\<open>data[(y * width + x) * 4 + 3]\<close>. A read past the end of the array is \<^verbatim>\<open>undefined\<close> in
  JavaScript, and \<^verbatim>\<open>undefined > 0\<close> is false; the byte 0 stands for it.
\<close>

definition alphaAt :: "byte list \<Rightarrow> nat \<Rightarrow> nat \<Rightarrow> nat \<Rightarrow> byte" where
  "alphaAt d w x y =
     (let i = (y * w + x) * 4 + 3 in if i < length d then d ! i else 0)"

text \<open>The body of the inner loop, for the pixel \<open>(x, y)\<close>.\<close>

definition visit :: "byte list \<Rightarrow> nat \<Rightarrow> nat \<Rightarrow> nat \<Rightarrow> bbox \<Rightarrow> bbox" where
  "visit d w y x b =
     (if alphaAt d w x y > 0
      then \<lparr>minX = (if x < minX b then x else minX b),
            minY = (if y < minY b then y else minY b),
            maxX = (if x > maxX b then x else maxX b),
            maxY = (if y > maxY b then y else maxY b),
            hasAlpha = True\<rparr>
      else b)"

text \<open>The two nested \<^verbatim>\<open>for\<close> loops: rows from 0 to \<open>height - 1\<close>, in each row the columns
  from 0 to \<open>width - 1\<close>.\<close>

definition scan :: "byte list \<Rightarrow> nat \<Rightarrow> nat \<Rightarrow> bbox" where
  "scan d w h =
     fold (\<lambda>y. fold (visit d w y) [0..<w]) [0..<h]
       \<lparr>minX = w, minY = h, maxX = 0, maxY = 0, hasAlpha = False\<rparr>"

text \<open>
  \<^verbatim>\<open>croppedCtx.drawImage(canvas, minX, minY, cw, ch, 0, 0, cw, ch)\<close> on a new, transparent
  canvas of size \<open>cw\<close> by \<open>ch\<close>: source and destination rectangles have the same size, so
  the region is copied pixel for pixel (the rounding of premultiplied alpha in a browser
  is not modelled).
\<close>

definition crop :: "canvas \<Rightarrow> nat \<Rightarrow> nat \<Rightarrow> nat \<Rightarrow> nat \<Rightarrow> canvas" where
  "crop c sx sy cw ch =
     \<lparr>width = cw, height = ch,
      pixels = concat (map (\<lambda>y. take (4 * cw) (drop (4 * ((sy + y) * width c + sx)) (pixels c)))
                 [0..<ch])\<rparr>"

record trimmed =
  t_canvas :: nat
  t_width :: nat
  t_height :: nat

text \<open>
  The \<^verbatim>\<open>try\<close> block of \<^verbatim>\<open>trimCanvas\<close> for the canvas \<open>c\<close> stored at \<open>r\<close>. Its \<^verbatim>\<open>catch\<close> returns
  the canvas it was given, with that canvas's own width and height.
\<close>

definition scanAndCrop :: "platform \<Rightarrow> nat \<Rightarrow> canvas \<Rightarrow> world \<Rightarrow> trimmed option \<times> world" where
  "scanAndCrop p r c s =
     (let raw = Some \<lparr>t_canvas = r, t_width = width c, t_height = height c\<rparr>;
          s1 = perform (GetImageData r) s in
      if imageDataThrows p (width c) (height c) then (raw, s1)
      else
        let b = scan (pixels c) (width c) (height c) in
        if \<not> hasAlpha b then (None, s1)
        else
          let croppedWidth = maxX b - minX b + 1;
              croppedHeight = maxY b - minY b + 1 in
          if croppedWidth = width c \<and> croppedHeight = height c
          then (Some \<lparr>t_canvas = r, t_width = width c, t_height = height c\<rparr>, s1)
          else
            let s2 = perform (CreateCanvas croppedWidth croppedHeight) s1 in
            if createThrows p croppedWidth croppedHeight then (raw, s2)
            else
              let r' = length (canvases s2);
                  s3 = perform (GetContext r') (alloc croppedWidth croppedHeight s2) in
              if context2d p croppedWidth croppedHeight
              then
                let s4 = perform (DrawImage r' r) s3 in
                if drawThrows p croppedWidth croppedHeight then (raw, s4)
                else (Some \<lparr>t_canvas = r', t_width = croppedWidth, t_height = croppedHeight\<rparr>,
                      overwrite r' (crop c (minX b) (minY b) croppedWidth croppedHeight) s4)
              else (Some \<lparr>t_canvas = r', t_width = croppedWidth, t_height = croppedHeight\<rparr>, s3))"

text \<open>The argument of \<^verbatim>\<open>trimCanvas\<close>: a canvas (\<^verbatim>\<open>input instanceof HTMLCanvasElement\<close>) or a
  decoded layer.\<close>

datatype input = Surface nat | Raw layer

text \<open>A reference that points to no canvas of the store is treated as null.\<close>

definition trimCanvas :: "platform \<Rightarrow> input \<Rightarrow> world \<Rightarrow> trimmed option \<times> world" where
  "trimCanvas p inp s =
     (case (case inp of Surface r \<Rightarrow> (Some r, s) | Raw l \<Rightarrow> imageDataToCanvas p l s) of
        (None, s1) \<Rightarrow> (None, s1)
      | (Some r, s1) \<Rightarrow>
          if length (canvases s1) \<le> r then (None, s1)
          else
            let c = canvases s1 ! r in
            if width c = 0 \<or> height c = 0 then (None, s1)
            else if width c * height c > TRIM_LIMIT
            then (Some \<lparr>t_canvas = r, t_width = width c, t_height = height c\<rparr>, s1)
            else
              let s2 = perform (GetContext r) s1 in
              if \<not> context2d p (width c) (height c) then (None, s2)
              else scanAndCrop p r c s2)"

section \<open>The layer tree and its statistics\<close>

text \<open>\<^verbatim>\<open>PsdLayer\<close> of \<^verbatim>\<open>src/types.ts\<close>; an absent \<^verbatim>\<open>children\<close> is \<open>None\<close>.\<close>

datatype layerType = Layer | Group

datatype psdLayer = PsdLayer
  (l_id: string) (l_name: string) (l_type: layerType) (visible: bool) (opacity: real)
  (children: "psdLayer list option") (isSelected: bool)
  (l_width: nat) (l_height: nat) (l_top: int) (l_left: int)

record stats =
  total_count :: nat
  selected :: nat
  groups :: nat

text \<open>The \<^verbatim>\<open>count\<close> of the statistics effect in \<^verbatim>\<open>App.tsx\<close>, which keeps \<^verbatim>\<open>stats\<close> equal to the
  counts of the current \<^verbatim>\<open>layers\<close>.\<close>

fun count :: "psdLayer list \<Rightarrow> stats \<Rightarrow> stats"
  and countLayer :: "psdLayer \<Rightarrow> stats \<Rightarrow> stats" where
  "count [] st = st"
| "count (l # ls) st = count ls (countLayer l st)"
| "countLayer (PsdLayer i n t v op cs sel w h tp lf) st =
     (let st1 = (if t = Group then st\<lparr>groups := groups st + 1\<rparr>
                 else st\<lparr>total_count := total_count st + 1\<rparr>);
          st2 = (if sel \<and> t = Layer then st1\<lparr>selected := selected st1 + 1\<rparr> else st1)
      in case cs of Some kids \<Rightarrow> count kids st2 | None \<Rightarrow> st2)"

text \<open>\<^verbatim>\<open>countSelected\<close> of the revision of \<^verbatim>\<open>exportAssets\<close> in \<^verbatim>\<open>src/unnamed/part_001\<close>,
  with the counter \<^verbatim>\<open>totalLayers\<close> passed along.\<close>

fun countSelected :: "psdLayer list \<Rightarrow> nat \<Rightarrow> nat"
  and countSelectedLayer :: "psdLayer \<Rightarrow> nat \<Rightarrow> nat" where
  "countSelected [] k = k"
| "countSelected (l # ls) k = countSelected ls (countSelectedLayer l k)"
| "countSelectedLayer (PsdLayer i n t v op cs sel w h tp lf) k =
     (let k1 = (if t = Layer \<and> sel then k + 1 else k)
      in case cs of Some kids \<Rightarrow> countSelected kids k1 | None \<Rightarrow> k1)"

section \<open>transformName\<close>

text \<open>
  Layer names are modelled as ASCII strings: \<^verbatim>\<open>\s\<close> and \<^verbatim>\<open>trim\<close> see tab, line feed,
  vertical tab, form feed, carriage return and space; \<^verbatim>\<open>\w\<close> sees letters, digits and
  the underscore; case conversion acts on the letters A to Z.
\<close>

datatype namingStyle = Original | Snake_case | Kebab_case | PascalCase

definition isSpace :: "char \<Rightarrow> bool" where
  "isSpace c = (c \<in> set [CHR 0x09, CHR 0x0A, CHR 0x0B, CHR 0x0C, CHR 0x0D, CHR '' ''])"

definition upperCaseLetters :: string where
  "upperCaseLetters = ''ABCDEFGHIJKLMNOPQRSTUVWXYZ''"

definition lowerCaseLetters :: string where
  "lowerCaseLetters = ''abcdefghijklmnopqrstuvwxyz''"

definition isWord :: "char \<Rightarrow> bool" where
  "isWord c = (c \<in> set (upperCaseLetters @ lowerCaseLetters @ ''0123456789_''))"

definition toLowerCase :: "char \<Rightarrow> char" where
  "toLowerCase c =
     (case map_of (zip upperCaseLetters lowerCaseLetters) c of Some d \<Rightarrow> d | None \<Rightarrow> c)"

definition toUpperCase :: "char \<Rightarrow> char" where
  "toUpperCase c =
     (case map_of (zip lowerCaseLetters upperCaseLetters) c of Some d \<Rightarrow> d | None \<Rightarrow> c)"

text \<open>\<^verbatim>\<open>name.replace(/[/\\?%*:|"<>]/g, '_')\<close>\<close>

definition sanitize :: "string \<Rightarrow> string" where
  "sanitize s =
     map (\<lambda>c. if c \<in> set [CHR ''/'', CHR 0x5C, CHR ''?'', CHR ''%'', CHR ''*'', CHR '':'',
                            CHR ''|'', CHR 0x22, CHR ''<'', CHR ''>'']
               then CHR ''_'' else c) s"

definition trim :: "string \<Rightarrow> string" where
  "trim s = rev (dropWhile isSpace (rev (dropWhile isSpace s)))"

text \<open>\<^verbatim>\<open>replace(/\s+/g, sep)\<close>: every maximal run of white space becomes \<open>sep\<close>.\<close>

function replaceSpaces :: "string \<Rightarrow> string \<Rightarrow> string" where
  "replaceSpaces sep [] = []"
| "replaceSpaces sep (c # cs) =
     (if isSpace c then sep @ replaceSpaces sep (dropWhile isSpace cs)
      else c # replaceSpaces sep cs)"
  by pat_completeness auto
termination
  by (relation "measure (\<lambda>(sep, s). length s)")
     (auto simp: le_imp_less_Suc length_dropWhile_le)

text \<open>\<^verbatim>\<open>replace(/(\w)(\w*)/g, (g, g1, g2) => g1.toUpperCase() + g2.toLowerCase())\<close>\<close>

function capitalize :: "string \<Rightarrow> string" where
  "capitalize [] = []"
| "capitalize (c # cs) =
     (if isWord c
      then toUpperCase c # map toLowerCase (takeWhile isWord cs) @ capitalize (dropWhile isWord cs)
      else c # capitalize cs)"
  by pat_completeness auto
termination
  by (relation "measure length") (auto simp: le_imp_less_Suc length_dropWhile_le)

definition transformName :: "string \<Rightarrow> namingStyle \<Rightarrow> string" where
  "transformName name style =
     (let base = trim (sanitize name) in
      if style = Snake_case then replaceSpaces ''_'' (map toLowerCase base)
      else if style = Kebab_case then replaceSpaces ''-'' (map toLowerCase base)
      else if style = PascalCase then replaceSpaces [] (capitalize base)
      else base)"

section \<open>The archive and the interface state\<close>

text \<open>\<^verbatim>\<open>ProcessingState\<close> of \<^verbatim>\<open>src/types.ts\<close>. The messages are fixed texts, except the one of
  a progress update, which carries the layer name, \<^verbatim>\<open>processedCount\<close> and \<^verbatim>\<open>totalLayers\<close>.\<close>

datatype status = Idle | Parsing | Trimming | Ready | Exporting

datatype message = Initializing | NoneChosen | Slicing string nat nat | Packing
  | Completed | Interrupted

record processingState =
  status :: status
  progress :: real
  message :: message

text \<open>What an export does to the outside, in order: interface updates, the alert, the calls
  on the archive (JSZip) and the pauses that hand control back to the interface.\<close>

datatype effect =
    SetState processingState
  | Alert
  | NewZip
  | ZipFolder string string
  | ZipFile string string blob
  | Sleep nat
  | GenerateAsync
  | Download blob

record export =
  processedCount :: nat
  files :: archive
  effects :: "effect list"
  env :: world

definition emit :: "effect \<Rightarrow> export \<Rightarrow> export" where
  "emit e st = st\<lparr>effects := effects st @ [e]\<rparr>"

text \<open>
  The archive writer is the JSZip library, which is not part of the repository. It is
  modelled by the contract the code relies on. All JSZip objects of one archive share one
  table of entries, keyed by full path; an object is identified by its root path (the empty
  string for \<^verbatim>\<open>new JSZip()\<close>). \<^verbatim>\<open>folder(name)\<close> enters the directory \<open>root + name + "/"\<close>,
  adding its entry unless it exists, and returns the object rooted there; on an empty name
  it returns the object it was called on. \<^verbatim>\<open>file(name, data)\<close> stores the data at
  \<open>root + name\<close>, replacing an entry of that path.
\<close>

definition zipFolder :: "string \<Rightarrow> string \<Rightarrow> export \<Rightarrow> string \<times> export" where
  "zipFolder dir name st =
     (let st1 = emit (ZipFolder dir name) st in
      if name = [] then (dir, st1)
      else
        let path = dir @ name @ ''/'' in
        (path, if map_of (files st1) path = None
               then st1\<lparr>files := files st1 @ [(path, Folder)]\<rparr> else st1))"

definition zipFile :: "string \<Rightarrow> string \<Rightarrow> blob \<Rightarrow> export \<Rightarrow> export" where
  "zipFile dir name b st =
     (let st1 = emit (ZipFile dir name b) st in
      st1\<lparr>files := AList.update (dir @ name) (File b) (files st1)\<rparr>)"

section \<open>exportAssets\<close>

text \<open>
  The repository holds four revisions of \<^verbatim>\<open>processLevel\<close>: \<^verbatim>\<open>src/App.tsx\<close>, two in
  \<^verbatim>\<open>src/unnamed/part_000\<close> and one in \<^verbatim>\<open>src/unnamed/part_001\<close>. Their walks are the same
  but for three points, which \<open>revision\<close> records: whether a file is added to the object
  of the current folder (\<^verbatim>\<open>currentZip.file\<close>, second revision of \<^verbatim>\<open>part_000\<close>) or to the root
  object (\<^verbatim>\<open>zip.file\<close>, the three others), after how many processed layers the walk
  pauses, and for how many milliseconds. The wording of the progress message differs as
  well (the second revision of \<^verbatim>\<open>part_000\<close> shows the layer name only); the progress value
  is \<open>processedCount / totalLayers * 100\<close> in all four.
\<close>

record revision =
  fileInCurrentZip :: bool
  yieldEvery :: nat
  yieldDelay :: nat

definition App_tsx :: revision where
  "App_tsx = \<lparr>fileInCurrentZip = False, yieldEvery = 5, yieldDelay = 10\<rparr>"

definition part_000_first :: revision where
  "part_000_first = \<lparr>fileInCurrentZip = False, yieldEvery = 4, yieldDelay = 16\<rparr>"

definition part_000_second :: revision where
  "part_000_second = \<lparr>fileInCurrentZip = True, yieldEvery = 5, yieldDelay = 40\<rparr>"

definition part_001 :: revision where
  "part_001 = \<lparr>fileInCurrentZip = False, yieldEvery = 3, yieldDelay = 16\<rparr>"

text \<open>The component state that \<^verbatim>\<open>exportAssets\<close> reads besides \<^verbatim>\<open>layers\<close>: \<^verbatim>\<open>namingStyle\<close>,
  \<^verbatim>\<open>useFolderPrefix\<close> and the table \<^verbatim>\<open>layerMapRef.current\<close> from layer ids to decoded layers.\<close>

record settings =
  namingStyle :: namingStyle
  useFolderPrefix :: bool
  layerMap :: "string \<Rightarrow> layer option"

text \<open>
  The body of the branch for a selected layer whose decoded layer \<open>raw\<close> was found.
  \<^verbatim>\<open>trimCanvas\<close> returns null on every failure of its own and \<^verbatim>\<open>toBlob\<close> hands back null
  when it cannot encode, so the \<^verbatim>\<open>try\<close> that three revisions put around these lines has
  nothing to catch.
\<close>

definition exportLayer ::
  "revision \<Rightarrow> platform \<Rightarrow> nat \<Rightarrow> string \<Rightarrow> string \<Rightarrow> layer \<Rightarrow> string \<Rightarrow> string \<Rightarrow> export \<Rightarrow> export" where
  "exportLayer rv p totalLayers name cleanName raw currentZip prefixPath st =
     (let n = processedCount st + 1;
          st1 = emit (SetState \<lparr>status = Exporting,
                                 progress = real n / real totalLayers * 100,
                                 message = Slicing name n totalLayers\<rparr>)
                  (st\<lparr>processedCount := n\<rparr>);
          (result, s') = trimCanvas p (Raw raw) (env st1);
          st2 = st1\<lparr>env := s'\<rparr>;
          st3 = (case result of
                   None \<Rightarrow> st2
                 | Some t \<Rightarrow>
                     (case toBlob p (canvases s' ! t_canvas t) of
                        None \<Rightarrow> st2
                      | Some b \<Rightarrow>
                          zipFile (if fileInCurrentZip rv then currentZip else [])
                            (prefixPath @ cleanName @ ''.png'') b st2))
      in if n mod yieldEvery rv = 0 then emit (Sleep (yieldDelay rv)) st3 else st3)"

text \<open>\<^verbatim>\<open>processLevel(list, currentZip, prefixPath)\<close>; \<open>processLayer\<close> is the body of its loop.
  \<^verbatim>\<open>folder\<close> is never null for a string argument.\<close>

fun processLevel ::
    "revision \<Rightarrow> platform \<Rightarrow> settings \<Rightarrow> nat \<Rightarrow> psdLayer list \<Rightarrow> string \<Rightarrow> string \<Rightarrow> export \<Rightarrow> export"
  and processLayer ::
    "revision \<Rightarrow> platform \<Rightarrow> settings \<Rightarrow> nat \<Rightarrow> psdLayer \<Rightarrow> string \<Rightarrow> string \<Rightarrow> export \<Rightarrow> export"
  where
  "processLevel rv p cfg totalLayers [] currentZip prefixPath st = st"
| "processLevel rv p cfg totalLayers (l # ls) currentZip prefixPath st =
     processLevel rv p cfg totalLayers ls currentZip prefixPath
       (processLayer rv p cfg totalLayers l currentZip prefixPath st)"
| "processLayer rv p cfg totalLayers (PsdLayer i n t v op cs sel w h tp lf) currentZip prefixPath st =
     (let cleanName = transformName n (namingStyle cfg) in
      if t = Group then
        (let (folder, st1) = zipFolder currentZip cleanName st in
         case cs of
           Some kids \<Rightarrow>
             processLevel rv p cfg totalLayers kids folder
               (if useFolderPrefix cfg then prefixPath @ cleanName @ ''_'' else []) st1
         | None \<Rightarrow> st1)
      else if t = Layer \<and> sel then
        (case layerMap cfg i of
           Some raw \<Rightarrow> exportLayer rv p totalLayers n cleanName raw currentZip prefixPath st
         | None \<Rightarrow> st)
      else st)"

datatype outcome = Ignored | NothingSelected | Downloaded blob | Aborted

text \<open>
  \<^verbatim>\<open>exportAssets\<close> of \<^verbatim>\<open>src/App.tsx\<close>. \<^verbatim>\<open>totalLayers\<close> is \<^verbatim>\<open>stats.selected\<close>, which the statistics
  effect keeps equal to the count over \<^verbatim>\<open>layers\<close>. The result says how the run ended: the
  silent return on an empty \<^verbatim>\<open>layers\<close>, the alert that nothing is selected, the download
  of the archive, or the \<^verbatim>\<open>catch\<close> when the archive cannot be generated.
\<close>

definition exportAssets :: "platform \<Rightarrow> settings \<Rightarrow> psdLayer list \<Rightarrow> world \<Rightarrow> outcome \<times> export" where
  "exportAssets p cfg layers s =
     (let st0 = \<lparr>processedCount = 0, files = [], effects = [], env = s\<rparr> in
      if layers = [] then (Ignored, st0)
      else
        let st1 = emit NewZip
                    (emit (SetState \<lparr>status = Exporting, progress = 0, message = Initializing\<rparr>) st0);
            totalLayers = selected (count layers \<lparr>total_count = 0, selected = 0, groups = 0\<rparr>) in
        if totalLayers = 0
        then (NothingSelected,
              emit (SetState \<lparr>status = Ready, progress = 100, message = NoneChosen\<rparr>)
                (emit Alert st1))
        else
          let st2 = processLevel App_tsx p cfg totalLayers layers [] [] st1;
              st3 = emit GenerateAsync
                      (emit (SetState \<lparr>status = Exporting, progress = 99, message = Packing\<rparr>) st2) in
          case generateAsync p (files st3) of
            None \<Rightarrow>
              (Aborted,
               emit (SetState \<lparr>status = Ready, progress = 100, message = Interrupted\<rparr>) st3)
          | Some content \<Rightarrow>
              (Downloaded content,
               emit (SetState \<lparr>status = Ready, progress = 100, message = Completed\<rparr>)
                 (emit (Download content) st3)))"

section \<open>Notions used in the statements\<close>

subsection \<open>Pixels of a surface\<close>

text \<open>The four bytes of the pixel \<open>(x, y)\<close> of a canvas.\<close>

definition pixelAt :: "canvas \<Rightarrow> nat \<Rightarrow> nat \<Rightarrow> byte list" where
  "pixelAt c x y = take 4 (drop (4 * (y * width c + x)) (pixels c))"

definition opaqueAt :: "byte list \<Rightarrow> nat \<Rightarrow> nat \<Rightarrow> nat \<Rightarrow> bool" where
  "opaqueAt d w x y = (alphaAt d w x y \<noteq> 0)"

text \<open>Every alpha byte of the surface is zero.\<close>

definition transparent :: "canvas \<Rightarrow> bool" where
  "transparent c = (\<forall>x<width c. \<forall>y<height c. alphaAt (pixels c) (width c) x y = 0)"

text \<open>The bounding box of the pixels with nonzero alpha is the whole surface: the first and
  the last column and the first and the last row each hold such a pixel.\<close>

definition fullExtent :: "canvas \<Rightarrow> bool" where
  "fullExtent c =
     ((\<exists>y<height c. alphaAt (pixels c) (width c) 0 y \<noteq> 0)
    \<and> (\<exists>y<height c. alphaAt (pixels c) (width c) (width c - 1) y \<noteq> 0)
    \<and> (\<exists>x<width c. alphaAt (pixels c) (width c) x 0 \<noteq> 0)
    \<and> (\<exists>x<width c. alphaAt (pixels c) (width c) x (height c - 1) \<noteq> 0))"

text \<open>The pixels with nonzero alpha are exactly those of the rectangle with the corners
  \<open>(x0, y0)\<close> and \<open>(x1, y1)\<close>, which lies inside the surface.\<close>

definition opaqueExactly :: "canvas \<Rightarrow> nat \<Rightarrow> nat \<Rightarrow> nat \<Rightarrow> nat \<Rightarrow> bool" where
  "opaqueExactly c x0 y0 x1 y1 =
     (x1 < width c \<and> y1 < height c
    \<and> (\<forall>x<width c. \<forall>y<height c.
          (alphaAt (pixels c) (width c) x y \<noteq> 0) = (x0 \<le> x \<and> x \<le> x1 \<and> y0 \<le> y \<and> y \<le> y1)))"

subsection \<open>The invariant of the scan\<close>

definition start :: "nat \<Rightarrow> nat \<Rightarrow> bbox" where
  "start w h = \<lparr>minX = w, minY = h, maxX = 0, maxY = 0, hasAlpha = False\<rparr>"

text \<open>After the pixels \<open>pts\<close> (pairs of row and column) have been visited, the running box
  either is still the initial one, and none of them has nonzero alpha, or it encloses all
  of them that have nonzero alpha and each of its four sides passes through one.\<close>

definition covers :: "byte list \<Rightarrow> nat \<Rightarrow> nat \<Rightarrow> (nat \<times> nat) list \<Rightarrow> bbox \<Rightarrow> bool" where
  "covers d w h pts b =
     (if hasAlpha b
      then (\<forall>(y, x) \<in> set pts. opaqueAt d w x y \<longrightarrow>
              minX b \<le> x \<and> x \<le> maxX b \<and> minY b \<le> y \<and> y \<le> maxY b)
         \<and> (\<exists>(y, x) \<in> set pts. opaqueAt d w x y \<and> x = minX b)
         \<and> (\<exists>(y, x) \<in> set pts. opaqueAt d w x y \<and> x = maxX b)
         \<and> (\<exists>(y, x) \<in> set pts. opaqueAt d w x y \<and> y = minY b)
         \<and> (\<exists>(y, x) \<in> set pts. opaqueAt d w x y \<and> y = maxY b)
      else b = start w h \<and> (\<forall>(y, x) \<in> set pts. \<not> opaqueAt d w x y))"

subsection \<open>Effects on the store\<close>

text \<open>The canvas a call writes pixels to, if it writes.\<close>

fun writesTo :: "call \<Rightarrow> nat option" where
  "writesTo (PutImageData r) = Some r"
| "writesTo (DrawImage dst src) = Some dst"
| "writesTo _ = None"

text \<open>From \<open>s\<close> to \<open>s'\<close> the store only grew: the canvases of \<open>s\<close> are unchanged, the log was
  extended, and the new calls write to new canvases only.\<close>

definition extends :: "world \<Rightarrow> world \<Rightarrow> bool" where
  "extends s s' =
     (length (canvases s) \<le> length (canvases s')
    \<and> (\<forall>r<length (canvases s). canvases s' ! r = canvases s ! r)
    \<and> length (calls s) \<le> length (calls s')
    \<and> take (length (calls s)) (calls s') = calls s
    \<and> (\<forall>c \<in> set (drop (length (calls s)) (calls s')). \<forall>r.
          writesTo c = Some r \<longrightarrow> length (canvases s) \<le> r))"

subsection \<open>Layer trees and runs of the export\<close>

text \<open>All nodes of a forest, parents before their children.\<close>

fun nodes :: "psdLayer list \<Rightarrow> psdLayer list"
  and nodesOf :: "psdLayer \<Rightarrow> psdLayer list" where
  "nodes [] = []"
| "nodes (l # ls) = nodesOf l @ nodes ls"
| "nodesOf (PsdLayer i n t v op cs sel w h tp lf) =
     PsdLayer i n t v op cs sel w h tp lf # (case cs of Some kids \<Rightarrow> nodes kids | None \<Rightarrow> [])"

text \<open>The selection predicate: \<^verbatim>\<open>l.type === 'layer' && l.isSelected\<close>.\<close>

definition selectedLeaf :: "psdLayer \<Rightarrow> bool" where
  "selectedLeaf l = (l_type l = Layer \<and> isSelected l)"

definition selectedLeaves :: "psdLayer list \<Rightarrow> psdLayer list" where
  "selectedLeaves ls = filter selectedLeaf (nodes ls)"

text \<open>The shape \<^verbatim>\<open>transformLayers\<close> builds: a node of type \<^verbatim>\<open>'layer'\<close> has no children.\<close>

definition wellFormed :: "psdLayer list \<Rightarrow> bool" where
  "wellFormed ls = list_all (\<lambda>l. l_type l = Layer \<longrightarrow> children l = None) (nodes ls)"

text \<open>Every selected leaf has its decoded layer in the table.\<close>

definition payloadsPresent :: "settings \<Rightarrow> psdLayer list \<Rightarrow> bool" where
  "payloadsPresent cfg ls = list_all (\<lambda>l. layerMap cfg (l_id l) \<noteq> None) (selectedLeaves ls)"

definition exportable :: "settings \<Rightarrow> psdLayer list \<Rightarrow> bool" where
  "exportable cfg ns =
     (list_all (\<lambda>l. l_type l = Layer \<longrightarrow> children l = None) ns
    \<and> list_all (\<lambda>l. layerMap cfg (l_id l) \<noteq> None) (filter selectedLeaf ns))"

text \<open>The calls on the archive: \<^verbatim>\<open>folder\<close>, \<^verbatim>\<open>file\<close> and \<^verbatim>\<open>generateAsync\<close>.\<close>

fun sinkCall :: "effect \<Rightarrow> bool" where
  "sinkCall (ZipFolder d n) = True"
| "sinkCall (ZipFile d n b) = True"
| "sinkCall GenerateAsync = True"
| "sinkCall _ = False"

text \<open>The \<^verbatim>\<open>processedCount\<close> a progress update publishes, and the sequence of these values in
  a list of effects.\<close>

fun publishedCount :: "effect \<Rightarrow> nat option" where
  "publishedCount (SetState ps) =
     (case message ps of Slicing name n t \<Rightarrow> Some n | _ \<Rightarrow> None)"
| "publishedCount _ = None"

definition publishedCounts :: "effect list \<Rightarrow> nat list" where
  "publishedCounts es = List.map_filter publishedCount es"

text \<open>From \<open>st\<close> to \<open>st'\<close> the walk processed \<open>k\<close> layers: the counter rose by \<open>k\<close>, the new
  effects publish the \<open>k\<close> next values of the counter in order, and none of them is the
  generation of the archive.\<close>

definition advances :: "nat \<Rightarrow> export \<Rightarrow> export \<Rightarrow> bool" where
  "advances k st st' =
     (processedCount st' = processedCount st + k
    \<and> (\<exists>new. effects st' = effects st @ new \<and> GenerateAsync \<notin> set new
          \<and> publishedCounts new = [processedCount st + 1..<processedCount st + 1 + k]))"

section \<open>Sample inputs\<close>

text \<open>A platform on which nothing fails; the encoder hands back the pixel bytes.\<close>

definition quiet :: platform where
  "quiet = \<lparr>context2d = (\<lambda>w h. True), createThrows = (\<lambda>w h. False),
     imageDataThrows = (\<lambda>w h. False), drawThrows = (\<lambda>w h. False),
     toBlob = (\<lambda>c. Some (pixels c)), generateAsync = (\<lambda>a. Some [])\<rparr>"

text \<open>Platforms with one fault each: no 2-D context at all, \<^verbatim>\<open>getImageData\<close> throwing, and
  a 2-D context for canvases of width 2 only.\<close>

definition noContext :: platform where
  "noContext = quiet\<lparr>context2d := (\<lambda>w h. False)\<rparr>"

definition readFails :: platform where
  "readFails = quiet\<lparr>imageDataThrows := (\<lambda>w h. True)\<rparr>"

definition contextForWidth2 :: platform where
  "contextForWidth2 = quiet\<lparr>context2d := (\<lambda>w h. w = 2)\<rparr>"

definition emptyWorld :: world where
  "emptyWorld = \<lparr>canvases = [], calls = []\<rparr>"

text \<open>A surface of \<open>w\<close> by \<open>h\<close> pixels whose alpha is 255 in the rectangle with the corners
  \<open>(2, 3)\<close> and \<open>(5, 7)\<close> and 0 elsewhere; the colour bytes are 0.\<close>

definition rectPixels :: "nat \<Rightarrow> nat \<Rightarrow> byte list" where
  "rectPixels w h =
     map (\<lambda>i. if i mod 4 = 3 \<and> 2 \<le> (i div 4) mod w \<and> (i div 4) mod w \<le> 5
                  \<and> 3 \<le> (i div 4) div w \<and> (i div 4) div w \<le> 7
               then 255 else 0) [0..<4 * w * h]"

definition rectSurface :: "nat \<Rightarrow> nat \<Rightarrow> canvas" where
  "rectSurface w h = \<lparr>width = w, height = h, pixels = rectPixels w h\<rparr>"

text \<open>One opaque red pixel; and a row of two pixels, the first opaque red, the second
  transparent.\<close>

definition redDot :: canvas where
  "redDot = \<lparr>width = 1, height = 1, pixels = [255, 0, 0, 255]\<rparr>"

definition halfRow :: canvas where
  "halfRow = \<lparr>width = 2, height = 1, pixels = [255, 0, 0, 255, 0, 0, 0, 0]\<rparr>"

definition dotLayer :: layer where
  "dotLayer = \<lparr>layer_canvas = None, layer_canvasData = Some [255, 0, 0, 255],
     layer_width = 1, layer_height = 1, layer_name = ''dot''\<rparr>"

text \<open>A layer of 8000 by 8000 pixels, 64,000,000 in all, without and with a canvas of its
  own.\<close>

definition bigLayer :: layer where
  "bigLayer = \<lparr>layer_canvas = None, layer_canvasData = Some [],
     layer_width = 8000, layer_height = 8000, layer_name = ''big''\<rparr>"

definition bigLayerWithCanvas :: layer where
  "bigLayerWithCanvas = bigLayer\<lparr>layer_canvas := Some 0\<rparr>"

text \<open>The tree \<open>Root{ GroupA{ leaf1 (selected), leaf2 (unselected) }, leaf3 (selected) }\<close>,
  with naming style \<^verbatim>\<open>original\<close>, the folder prefix switched off, and a one-pixel layer
  behind every leaf.\<close>

definition leaf :: "string \<Rightarrow> string \<Rightarrow> bool \<Rightarrow> psdLayer" where
  "leaf i n sel = PsdLayer i n Layer True 1 None sel 1 1 0 0"

definition sampleTree :: "psdLayer list" where
  "sampleTree =
     [PsdLayer ''layer-g'' ''GroupA'' Group True 1
        (Some [leaf ''layer-1'' ''leaf1'' True, leaf ''layer-2'' ''leaf2'' False]) False 0 0 0 0,
      leaf ''layer-3'' ''leaf3'' True]"

definition sampleSettings :: settings where
  "sampleSettings = \<lparr>namingStyle = Original, useFolderPrefix = False,
     layerMap = (\<lambda>i. if i \<in> set [''layer-1'', ''layer-2'', ''layer-3''] then Some dotLayer else None)\<rparr>"

section \<open>The two limits\<close>

text \<open>
  C4, as the code has it. The ceiling above which \<^verbatim>\<open>trimCanvas\<close> skips the scan,
  16,000,000 pixels, is strictly smaller than the ceiling above which
  \<^verbatim>\<open>imageDataToCanvas\<close> refuses to allocate, 48,000,000 pixels.
\<close>

theorem trim_limit_below_pixel_limit: "TRIM_LIMIT < PIXEL_LIMIT"
  by (simp add: TRIM_LIMIT_def PIXEL_LIMIT_def)

text \<open>C4 as stated, that the scan ceiling is the larger of the two, does not hold.\<close>

theorem trim_limit_not_larger: "\<not> PIXEL_LIMIT < TRIM_LIMIT"
  by (simp add: TRIM_LIMIT_def PIXEL_LIMIT_def)

section \<open>The memory guard of imageDataToCanvas\<close>

text \<open>
  C3, as the code has it. For a layer whose \<open>width * height\<close> exceeds 48,000,000,
  \<^verbatim>\<open>imageDataToCanvas\<close> makes no call of the canvas API and leaves the store as it is; the
  result is null when the layer carries no canvas of its own, and that canvas when it
  carries one.
\<close>

theorem materialize_guard:
  assumes "PIXEL_LIMIT < layer_width l * layer_height l"
  shows "snd (imageDataToCanvas p l s) = s
       \<and> fst (imageDataToCanvas p l s) = layer_canvas l"
  using assms
  by (auto simp: imageDataToCanvas_def split: option.splits)

theorem materialize_guard_witness:
  "PIXEL_LIMIT < layer_width bigLayer * layer_height bigLayer
   \<and> imageDataToCanvas quiet bigLayer emptyWorld = (None, emptyWorld)"
  using materialize_guard [of bigLayer quiet emptyWorld]
  by (simp add: bigLayer_def PIXEL_LIMIT_def prod_eq_iff)

text \<open>
  C3 as stated fails for a layer that carries a canvas: the first line of
  \<^verbatim>\<open>imageDataToCanvas\<close> returns that canvas, whatever the size of the layer.
\<close>

theorem materialize_precomputed_above_limit:
  "PIXEL_LIMIT < layer_width bigLayerWithCanvas * layer_height bigLayerWithCanvas
   \<and> fst (imageDataToCanvas quiet bigLayerWithCanvas
            \<lparr>canvases = [blank 8000 8000], calls = []\<rparr>) = Some 0"
  by (simp add: imageDataToCanvas_def bigLayerWithCanvas_def bigLayer_def PIXEL_LIMIT_def)

section \<open>The scan computes the bounding box\<close>

lemma visit_opaque:
  "visit d w y x b =
     (if opaqueAt d w x y
      then \<lparr>minX = min x (minX b), minY = min y (minY b), maxX = max x (maxX b),
            maxY = max y (maxY b), hasAlpha = True\<rparr>
      else b)"
  by (auto simp: visit_def opaqueAt_def word_gt_0 min_def max_def)

lemma covers_step:
  assumes "covers d w h pts b" "x < w" "y < h"
  shows "covers d w h (pts @ [(y, x)]) (visit d w y x b)"
proof (cases "opaqueAt d w x y")
  case False
  with assms show ?thesis
    by (auto simp: covers_def visit_opaque)
next
  case True
  show ?thesis
  proof (cases "hasAlpha b")
    case False
    with True assms show ?thesis
      by (auto simp: covers_def visit_opaque start_def)
  next
    case h: True
    with True assms show ?thesis
      apply (simp add: covers_def visit_opaque)
      apply (intro conjI)
      apply (auto simp: min_def max_def)
      done
  qed
qed

lemma covers_fold:
  assumes "covers d w h pts b" "\<forall>(y, x) \<in> set qs. x < w \<and> y < h"
  shows "covers d w h (pts @ qs) (fold (\<lambda>(y, x). visit d w y x) qs b)"
  using assms
proof (induction qs arbitrary: pts b)
  case Nil
  then show ?case by simp
next
  case (Cons q qs)
  obtain y x where q: "q = (y, x)" by (cases q)
  from Cons.prems q have "covers d w h (pts @ [(y, x)]) (visit d w y x b)"
    by (intro covers_step) auto
  from Cons.IH [OF this] Cons.prems(2) q show ?case by simp
qed

text \<open>The nested loops visit the pixels in the order of the list of all pairs.\<close>

lemma fold_rows:
  "fold (\<lambda>y. fold (f y) xs) ys b = fold (\<lambda>(y, x). f y x) (List.product ys xs) b"
proof (induction ys arbitrary: b)
  case Nil
  show ?case by simp
next
  case (Cons y ys)
  have "fold (\<lambda>(y, x). f y x) (map (Pair y) xs) b = fold (f y) xs b"
    by (simp add: fold_map comp_def)
  with Cons show ?case by simp
qed

lemma covers_scan: "covers d w h (List.product [0..<h] [0..<w]) (scan d w h)"
proof -
  have "covers d w h [] (start w h)"
    by (simp add: covers_def start_def)
  from covers_fold [OF this, of "List.product [0..<h] [0..<w]"]
  show ?thesis
    by (simp add: scan_def fold_rows start_def)
qed

lemma scan_hasAlpha: "hasAlpha (scan d w h) = (\<exists>x<w. \<exists>y<h. opaqueAt d w x y)"
  using covers_scan [of d w h]
  by (auto simp: covers_def split: if_splits)

lemma scan_encloses:
  assumes "opaqueAt d w x y" "x < w" "y < h"
  shows "minX (scan d w h) \<le> x \<and> x \<le> maxX (scan d w h)
       \<and> minY (scan d w h) \<le> y \<and> y \<le> maxY (scan d w h)"
  using covers_scan [of d w h] assms
  by (auto simp: covers_def split: if_splits)

lemma scan_touches:
  assumes "hasAlpha (scan d w h)"
  shows "(\<exists>y<h. minX (scan d w h) < w \<and> opaqueAt d w (minX (scan d w h)) y)
       \<and> (\<exists>y<h. maxX (scan d w h) < w \<and> opaqueAt d w (maxX (scan d w h)) y)
       \<and> (\<exists>x<w. minY (scan d w h) < h \<and> opaqueAt d w x (minY (scan d w h)))
       \<and> (\<exists>x<w. maxY (scan d w h) < h \<and> opaqueAt d w x (maxY (scan d w h)))"
  using covers_scan [of d w h] assms
  by (auto simp: covers_def split: if_splits)

text \<open>Once a pixel was seen, \<open>minX \<le> maxX\<close> and \<open>minY \<le> maxY\<close>: the subtractions that give
  the cropped width and height never fall below zero.\<close>

lemma scan_ordered:
  assumes "hasAlpha (scan d w h)"
  shows "minX (scan d w h) \<le> maxX (scan d w h) \<and> minY (scan d w h) \<le> maxY (scan d w h)"
proof -
  from scan_touches [OF assms] obtain y where "y < h" "minX (scan d w h) < w"
    "opaqueAt d w (minX (scan d w h)) y"
    by blast
  from scan_encloses [OF this(3,2,1)] show ?thesis
    by linarith
qed

lemma scan_transparent: "transparent c \<Longrightarrow> \<not> hasAlpha (scan (pixels c) (width c) (height c))"
  by (simp add: scan_hasAlpha transparent_def opaqueAt_def)

lemma scan_fullExtent:
  assumes "fullExtent c"
  shows "hasAlpha (scan (pixels c) (width c) (height c))"
    and "maxX (scan (pixels c) (width c) (height c))
           - minX (scan (pixels c) (width c) (height c)) + 1 = width c"
    and "maxY (scan (pixels c) (width c) (height c))
           - minY (scan (pixels c) (width c) (height c)) + 1 = height c"
proof -
  let ?b = "scan (pixels c) (width c) (height c)"
  from assms obtain y0 y1 x0 x1 where
    a: "y0 < height c" "opaqueAt (pixels c) (width c) 0 y0"
    and b: "y1 < height c" "opaqueAt (pixels c) (width c) (width c - 1) y1"
    and c: "x0 < width c" "opaqueAt (pixels c) (width c) x0 0"
    and d: "x1 < width c" "opaqueAt (pixels c) (width c) x1 (height c - 1)"
    by (auto simp: fullExtent_def opaqueAt_def)
  have w: "0 < width c" and hh: "0 < height c" using a c by auto
  from a w show h: "hasAlpha ?b"
    unfolding scan_hasAlpha by blast
  from scan_encloses [OF a(2) w a(1)] have "minX ?b = 0" by simp
  moreover from scan_encloses [OF b(2) _ b(1)] w have "width c - 1 \<le> maxX ?b" by simp
  moreover from scan_touches [OF h] have "maxX ?b < width c" by auto
  ultimately show "maxX ?b - minX ?b + 1 = width c" by simp
  from scan_encloses [OF c(2) c(1) hh] have "minY ?b = 0" by simp
  moreover from scan_encloses [OF d(2) d(1)] hh have "height c - 1 \<le> maxY ?b" by simp
  moreover from scan_touches [OF h] have "maxY ?b < height c" by auto
  ultimately show "maxY ?b - minY ?b + 1 = height c" by simp
qed

lemma scan_rectangle:
  assumes "opaqueExactly c x0 y0 x1 y1" "x0 \<le> x1" "y0 \<le> y1"
  shows "hasAlpha (scan (pixels c) (width c) (height c))"
    and "minX (scan (pixels c) (width c) (height c)) = x0"
    and "maxX (scan (pixels c) (width c) (height c)) = x1"
    and "minY (scan (pixels c) (width c) (height c)) = y0"
    and "maxY (scan (pixels c) (width c) (height c)) = y1"
proof -
  let ?b = "scan (pixels c) (width c) (height c)"
  let ?op = "opaqueAt (pixels c) (width c)"
  from assms have in_w: "x1 < width c" "x0 < width c" and in_h: "y1 < height c" "y0 < height c"
    by (auto simp: opaqueExactly_def)
  have iff: "?op x y = (x0 \<le> x \<and> x \<le> x1 \<and> y0 \<le> y \<and> y \<le> y1)"
    if "x < width c" "y < height c" for x y
    using assms(1) that by (simp add: opaqueExactly_def opaqueAt_def)
  have lo: "?op x0 y0" using iff [of x0 y0] in_w in_h assms by simp
  have hi: "?op x1 y1" using iff [of x1 y1] in_w in_h assms by simp
  show h: "hasAlpha ?b"
    unfolding scan_hasAlpha using lo in_w in_h by blast
  note t = scan_touches [OF h]
  from scan_encloses [OF lo in_w(2) in_h(2)] have a: "minX ?b \<le> x0" "minY ?b \<le> y0" by simp_all
  from scan_encloses [OF hi in_w(1) in_h(1)] have b: "x1 \<le> maxX ?b" "y1 \<le> maxY ?b" by simp_all
  from t obtain y where "y < height c" "minX ?b < width c" "?op (minX ?b) y" by blast
  with iff [of "minX ?b" y] a show "minX ?b = x0" by simp
  from t obtain y where "y < height c" "maxX ?b < width c" "?op (maxX ?b) y" by blast
  with iff [of "maxX ?b" y] b show "maxX ?b = x1" by simp
  from t obtain x where "x < width c" "minY ?b < height c" "?op x (minY ?b)" by blast
  with iff [of x "minY ?b"] a show "minY ?b = y0" by simp
  from t obtain x where "x < width c" "maxY ?b < height c" "?op x (maxY ?b)" by blast
  with iff [of x "maxY ?b"] b show "maxY ?b = y1" by simp
qed

section \<open>Sample surfaces\<close>

lemma rectSurface_opaque:
  assumes "5 < w" "7 < h"
  shows "opaqueExactly (rectSurface w h) 2 3 5 7"
proof -
  have "(alphaAt (rectPixels w h) w x y \<noteq> 0) = (2 \<le> x \<and> x \<le> 5 \<and> 3 \<le> y \<and> y \<le> 7)"
    if "x < w" "y < h" for x y
  proof -
    define k where "k = y * w + x"
    define i where "i = k * 4 + 3"
    have "(y + 1) * w \<le> h * w"
      using that(2) by (intro mult_le_mono1) simp
    with that(1) have "k < w * h"
      by (simp add: k_def algebra_simps)
    then have i: "i < 4 * w * h"
      by (simp add: i_def)
    have d: "i div 4 = k" and m: "i mod 4 = 3"
      unfolding i_def by presburger+
    from that(1) have e: "k mod w = x" "k div w = y"
      by (simp_all add: k_def)
    have "alphaAt (rectPixels w h) w x y
        = (if i < length (rectPixels w h) then rectPixels w h ! i else 0)"
      by (simp add: alphaAt_def i_def k_def Let_def)
    with i show ?thesis
      by (simp add: rectPixels_def d m e del: upt_rec_numeral)
  qed
  with assms show ?thesis
    by (simp add: opaqueExactly_def rectSurface_def)
qed

lemma rectSurface_length:
  "length (pixels (rectSurface w h)) = 4 * width (rectSurface w h) * height (rectSurface w h)"
  by (simp add: rectSurface_def rectPixels_def del: upt_rec_numeral)

lemma redDot_fullExtent: "fullExtent redDot"
  by (simp add: fullExtent_def redDot_def alphaAt_def)

lemma blank_transparent: "transparent (blank w h)"
  by (simp add: transparent_def blank_def alphaAt_def Let_def)

lemma scan_halfRow:
  "scan (pixels halfRow) 2 (Suc 0) = \<lparr>minX = 0, minY = 0, maxX = 0, maxY = 0, hasAlpha = True\<rparr>"
  by (simp add: scan_def visit_def alphaAt_def halfRow_def upt_conv_Cons)

section \<open>trimCanvas on a surface\<close>

text \<open>
  C7, as the code has it. For a surface of positive width and height and of at most
  16,000,000 pixels whose alpha bytes are all zero, \<^verbatim>\<open>trimCanvas\<close> returns null, except when
  the surface hands out its 2-D context and \<^verbatim>\<open>getImageData\<close> throws: then the \<^verbatim>\<open>catch\<close> returns
  the surface as it is.
\<close>

theorem trim_all_transparent:
  assumes "r < length (canvases s)" and "c = canvases s ! r"
    and "0 < width c" and "0 < height c"
    and "width c * height c \<le> TRIM_LIMIT"
    and "transparent c"
  shows "fst (trimCanvas p (Surface r) s)
           = (if context2d p (width c) (height c) \<and> imageDataThrows p (width c) (height c)
              then Some \<lparr>t_canvas = r, t_width = width c, t_height = height c\<rparr>
              else None)"
  using assms scan_transparent [of c]
  by (simp add: trimCanvas_def scanAndCrop_def Let_def)

theorem trim_all_transparent_witness:
  "transparent (blank 2 2)
   \<and> fst (trimCanvas quiet (Surface 0) \<lparr>canvases = [blank 2 2], calls = []\<rparr>) = None"
  using trim_all_transparent [of 0 "\<lparr>canvases = [blank 2 2], calls = []\<rparr>" "blank 2 2" quiet]
    blank_transparent [of 2 2]
  by (simp add: quiet_def blank_def TRIM_LIMIT_def)

text \<open>
  C7 as stated fails when \<^verbatim>\<open>getImageData\<close> throws: the \<^verbatim>\<open>catch\<close> of \<^verbatim>\<open>trimCanvas\<close> returns the
  surface it was given, here a fully transparent one of 2 by 2 pixels.
\<close>

theorem trim_all_transparent_read_failure:
  "transparent (blank 2 2) \<and> 0 < width (blank 2 2) \<and> 0 < height (blank 2 2)
   \<and> width (blank 2 2) * height (blank 2 2) \<le> TRIM_LIMIT
   \<and> fst (trimCanvas readFails (Surface 0) \<lparr>canvases = [blank 2 2], calls = []\<rparr>)
       = Some \<lparr>t_canvas = 0, t_width = 2, t_height = 2\<rparr>"
  using blank_transparent [of 2 2]
  by (simp add: trimCanvas_def scanAndCrop_def readFails_def quiet_def blank_def TRIM_LIMIT_def
      perform_def Let_def)

text \<open>
  C6, as the code has it. For a surface whose bounding box of nonzero alpha is the whole
  surface, \<^verbatim>\<open>trimCanvas\<close> changes no canvas of the store and returns the surface it was
  given, with that surface's width and height, except when the surface has at most
  16,000,000 pixels and does not hand out its 2-D context: then the result is null.
\<close>

theorem trim_full_extent_returns_input:
  assumes "r < length (canvases s)" and "c = canvases s ! r"
    and "fullExtent c"
  shows "fst (trimCanvas p (Surface r) s)
           = (if width c * height c \<le> TRIM_LIMIT \<and> \<not> context2d p (width c) (height c)
              then None
              else Some \<lparr>t_canvas = r, t_width = width c, t_height = height c\<rparr>)
       \<and> canvases (snd (trimCanvas p (Surface r) s)) = canvases s"
proof -
  from assms(3) have "0 < width c" "0 < height c"
    by (auto simp: fullExtent_def)
  with assms scan_fullExtent [OF assms(3)] show ?thesis
    by (auto simp: trimCanvas_def scanAndCrop_def Let_def perform_def)
qed

theorem trim_full_extent_witness:
  "fullExtent redDot
   \<and> fst (trimCanvas quiet (Surface 0) \<lparr>canvases = [redDot], calls = []\<rparr>)
       = Some \<lparr>t_canvas = 0, t_width = 1, t_height = 1\<rparr>
   \<and> canvases (snd (trimCanvas quiet (Surface 0) \<lparr>canvases = [redDot], calls = []\<rparr>)) = [redDot]"
  using trim_full_extent_returns_input [of 0 "\<lparr>canvases = [redDot], calls = []\<rparr>" redDot quiet]
    redDot_fullExtent
  by (simp add: quiet_def redDot_def)

text \<open>
  C6 as stated fails when \<^verbatim>\<open>getContext('2d')\<close> returns null for the surface: \<^verbatim>\<open>trimCanvas\<close>
  then returns null, here for a single opaque pixel.
\<close>

theorem trim_full_extent_without_context:
  "fullExtent redDot
   \<and> fst (trimCanvas noContext (Surface 0) \<lparr>canvases = [redDot], calls = []\<rparr>) = None"
  using redDot_fullExtent
  by (simp add: trimCanvas_def noContext_def quiet_def redDot_def TRIM_LIMIT_def perform_def)

text \<open>The copy puts the pixel \<open>(sx, sy)\<close> of the source at the origin of the new canvas.\<close>

lemma crop_origin:
  assumes len: "length (pixels c) = 4 * width c * height c"
    and "sx + cw \<le> width c" and "sy + ch \<le> height c" and "0 < cw" and "0 < ch"
  shows "pixelAt (crop c sx sy cw ch) 0 0 = pixelAt c sx sy"
proof -
  let ?row = "\<lambda>y. take (4 * cw) (drop (4 * ((sy + y) * width c + sx)) (pixels c))"
  have "(sy + 1) * width c \<le> height c * width c"
    using assms(3,5) by (intro mult_le_mono1) simp
  then have "sy * width c + sx + cw \<le> width c * height c"
    using assms(2) by (simp add: algebra_simps)
  then have "4 * (sy * width c + sx) + 4 * cw \<le> length (pixels c)"
    using len by simp
  then have l: "4 \<le> length (?row 0)"
    using assms(4) by simp
  from assms(5) have "[0..<ch] = 0 # [1..<ch]"
    by (simp add: upt_conv_Cons)
  then have "pixels (crop c sx sy cw ch) = ?row 0 @ concat (map ?row [1..<ch])"
    by (simp add: crop_def)
  then have "pixelAt (crop c sx sy cw ch) 0 0 = take 4 (?row 0)"
    using l by (simp add: pixelAt_def)
  also have "\<dots> = pixelAt c sx sy"
    using assms(4) by (simp add: pixelAt_def min_def)
  finally show ?thesis .
qed

text \<open>
  C5, as the code has it. Take a surface of at most 16,000,000 pixels in which exactly
  the pixels of the rectangle with the corners \<open>(2, 3)\<close> and \<open>(5, 7)\<close> have nonzero alpha,
  and a platform that hands out the 2-D contexts of the surface and of a canvas of 4 by 5
  pixels and on which neither \<^verbatim>\<open>getImageData\<close> nor the creation of that canvas nor
  \<^verbatim>\<open>drawImage\<close> throws. Then \<^verbatim>\<open>trimCanvas\<close> returns a new canvas with width 4 and height 5,
  and the pixel at \<open>(0, 0)\<close> of that canvas is the pixel at \<open>(2, 3)\<close> of the surface.
\<close>

theorem trim_rectangle:
  assumes "r < length (canvases s)" and "c = canvases s ! r"
    and "length (pixels c) = 4 * width c * height c"
    and "opaqueExactly c 2 3 5 7"
    and "width c * height c \<le> TRIM_LIMIT"
    and "context2d p (width c) (height c)" and "\<not> imageDataThrows p (width c) (height c)"
    and "\<not> createThrows p 4 5" and "context2d p 4 5" and "\<not> drawThrows p 4 5"
  shows "fst (trimCanvas p (Surface r) s)
           = Some \<lparr>t_canvas = length (canvases s), t_width = 4, t_height = 5\<rparr>
       \<and> width (canvases (snd (trimCanvas p (Surface r) s)) ! length (canvases s)) = 4
       \<and> height (canvases (snd (trimCanvas p (Surface r) s)) ! length (canvases s)) = 5
       \<and> pixelAt (canvases (snd (trimCanvas p (Surface r) s)) ! length (canvases s)) 0 0
           = pixelAt c 2 3"
proof -
  from assms(4) have dims: "5 < width c" "7 < height c"
    by (simp_all add: opaqueExactly_def)
  note sc = scan_rectangle [OF assms(4)]
  have px: "pixelAt (crop c 2 3 4 5) 0 0 = pixelAt c 2 3"
    using assms(3) dims by (intro crop_origin) simp_all
  have wh: "width (crop c 2 3 4 5) = 4" "height (crop c 2 3 4 5) = 5"
    by (simp_all add: crop_def)
  from assms dims sc px wh show ?thesis
    by (simp add: trimCanvas_def scanAndCrop_def Let_def perform_def alloc_def overwrite_def)
qed

theorem trim_rectangle_witness:
  "opaqueExactly (rectSurface 6 8) 2 3 5 7
   \<and> fst (trimCanvas quiet (Surface 0) \<lparr>canvases = [rectSurface 6 8], calls = []\<rparr>)
       = Some \<lparr>t_canvas = 1, t_width = 4, t_height = 5\<rparr>
   \<and> pixelAt (canvases (snd (trimCanvas quiet (Surface 0)
                \<lparr>canvases = [rectSurface 6 8], calls = []\<rparr>)) ! 1) 0 0
       = pixelAt (rectSurface 6 8) 2 3"
  using trim_rectangle [of 0 "\<lparr>canvases = [rectSurface 6 8], calls = []\<rparr>" "rectSurface 6 8" quiet]
    rectSurface_opaque [of 6 8] rectSurface_length [of 6 8]
  by (simp add: quiet_def TRIM_LIMIT_def rectSurface_def)

text \<open>
  C5 as stated fails above the scan ceiling: a surface of 4001 by 4000 pixels, in which
  exactly the pixels of that rectangle have nonzero alpha, comes back untrimmed.
\<close>

theorem trim_rectangle_bypassed:
  "opaqueExactly (rectSurface 4001 4000) 2 3 5 7
   \<and> fst (trimCanvas quiet (Surface 0) \<lparr>canvases = [rectSurface 4001 4000], calls = []\<rparr>)
       = Some \<lparr>t_canvas = 0, t_width = 4001, t_height = 4000\<rparr>"
  using rectSurface_opaque [of 4001 4000]
  by (simp add: trimCanvas_def TRIM_LIMIT_def rectSurface_def)

section \<open>Failures of the copy step\<close>

text \<open>When creating the cropped canvas or \<^verbatim>\<open>drawImage\<close> throws, the \<^verbatim>\<open>catch\<close> returns the surface
  \<^verbatim>\<open>trimCanvas\<close> was given, with its own width and height.\<close>

lemma trim_copy_exception:
  assumes "r < length (canvases s)" and "c = canvases s ! r"
    and "0 < width c" and "0 < height c" and "width c * height c \<le> TRIM_LIMIT"
    and "context2d p (width c) (height c)" and "\<not> imageDataThrows p (width c) (height c)"
    and "b = scan (pixels c) (width c) (height c)" and "hasAlpha b"
    and "cw = maxX b - minX b + 1" and "ch = maxY b - minY b + 1"
    and "cw \<noteq> width c \<or> ch \<noteq> height c"
    and "createThrows p cw ch \<or> context2d p cw ch \<and> drawThrows p cw ch"
  shows "fst (trimCanvas p (Surface r) s)
           = Some \<lparr>t_canvas = r, t_width = width c, t_height = height c\<rparr>"
  using assms
  by (auto simp: trimCanvas_def scanAndCrop_def Let_def)

text \<open>
  C8 at a failing input. The surface is a row of two pixels, the first opaque and the
  second transparent, so the bounding box is the proper sub-rectangle of 1 by 1 pixel;
  the new canvas gets no 2-D context, so nothing can be copied into it. \<^verbatim>\<open>trimCanvas\<close>
  returns the new canvas, which is blank, and not the surface it was given.
\<close>

theorem trim_without_cropped_context:
  "trimCanvas contextForWidth2 (Surface 0) \<lparr>canvases = [halfRow], calls = []\<rparr>
     = (Some \<lparr>t_canvas = 1, t_width = 1, t_height = 1\<rparr>,
        \<lparr>canvases = [halfRow, blank 1 1],
         calls = [GetContext 0, GetImageData 0, CreateCanvas 1 1, GetContext 1]\<rparr>)"
proof -
  have "width halfRow = 2" "height halfRow = 1"
    by (simp_all add: halfRow_def)
  then show ?thesis
    by (simp add: trimCanvas_def scanAndCrop_def contextForWidth2_def quiet_def scan_halfRow
        TRIM_LIMIT_def perform_def alloc_def Let_def)
qed

section \<open>The result of trimCanvas\<close>

lemma scanAndCrop_result:
  assumes "scanAndCrop p r c s = (Some t, s')" and "r < length (canvases s)"
    and "c = canvases s ! r" and "0 < width c" and "0 < height c"
  shows "t_canvas t < length (canvases s')
       \<and> width (canvases s' ! t_canvas t) = t_width t
       \<and> height (canvases s' ! t_canvas t) = t_height t
       \<and> 0 < t_width t \<and> 0 < t_height t"
  using assms
  by (auto simp: scanAndCrop_def Let_def perform_def alloc_def overwrite_def nth_append
      blank_def crop_def split: if_splits)

text \<open>A result that is not null names a canvas of the store, so the canvas that
  \<^verbatim>\<open>processLevel\<close> hands to \<^verbatim>\<open>toBlob\<close> exists; its width and height are the ones the result
  reports, and both are positive.\<close>

lemma trimCanvas_result:
  assumes "trimCanvas p inp s = (Some t, s')"
  shows "t_canvas t < length (canvases s')
       \<and> width (canvases s' ! t_canvas t) = t_width t
       \<and> height (canvases s' ! t_canvas t) = t_height t
       \<and> 0 < t_width t \<and> 0 < t_height t"
proof -
  obtain cv s1 where i:
    "(case inp of Surface r \<Rightarrow> (Some r, s) | Raw l \<Rightarrow> imageDataToCanvas p l s) = (cv, s1)"
    by fastforce
  show ?thesis
  proof (cases cv)
    case None
    with i assms show ?thesis by (simp add: trimCanvas_def)
  next
    case (Some r)
    let ?c = "canvases s1 ! r"
    let ?s2 = "perform (GetContext r) s1"
    show ?thesis
    proof (cases "r < length (canvases s1) \<and> 0 < width ?c \<and> 0 < height ?c
        \<and> width ?c * height ?c \<le> TRIM_LIMIT \<and> context2d p (width ?c) (height ?c)")
      case True
      with Some i assms have "scanAndCrop p r ?c ?s2 = (Some t, s')"
        by (simp add: trimCanvas_def Let_def)
      from scanAndCrop_result [OF this] True show ?thesis
        by (simp add: perform_def)
    next
      case False
      with Some i assms show ?thesis
        by (auto simp: trimCanvas_def Let_def perform_def split: if_splits)
    qed
  qed
qed

section \<open>trimCanvas writes to new canvases only\<close>

lemma extends_refl: "extends s s"
  by (simp add: extends_def)

lemma extends_trans:
  assumes "extends s s1" "extends s1 s2"
  shows "extends s s2"
proof -
  from assms obtain a b where a: "calls s1 = calls s @ a" and b: "calls s2 = calls s1 @ b"
    by (metis extends_def append_take_drop_id)
  with assms show ?thesis
    by (auto simp: extends_def)
qed

lemma perform_extends: "writesTo c = None \<Longrightarrow> extends s (perform c s)"
  by (simp add: extends_def perform_def)

lemma synthesize_extends: "extends s (snd (synthesize p d w h s))"
  by (auto simp: synthesize_def extends_def Let_def perform_def alloc_def overwrite_def nth_append)

lemma imageDataToCanvas_extends: "extends s (snd (imageDataToCanvas p l s))"
  by (auto simp: imageDataToCanvas_def extends_refl synthesize_extends split: option.splits)

lemma scanAndCrop_extends: "r < length (canvases s) \<Longrightarrow> extends s (snd (scanAndCrop p r c s))"
  by (auto simp: scanAndCrop_def extends_def Let_def perform_def alloc_def overwrite_def nth_append)

lemma trimCanvas_extends: "extends s (snd (trimCanvas p inp s))"
proof -
  obtain cv s1 where i:
    "(case inp of Surface r \<Rightarrow> (Some r, s) | Raw l \<Rightarrow> imageDataToCanvas p l s) = (cv, s1)"
    by fastforce
  have e1: "extends s s1"
  proof (cases inp)
    case (Surface r)
    with i show ?thesis by (simp add: extends_refl)
  next
    case (Raw l)
    with i imageDataToCanvas_extends [of s p l] show ?thesis by simp
  qed
  show ?thesis
  proof (cases cv)
    case None
    with i e1 show ?thesis by (simp add: trimCanvas_def)
  next
    case (Some r)
    have e2: "extends s1 (perform (GetContext r) s1)" by (simp add: perform_extends)
    have e3: "r < length (canvases s1) \<Longrightarrow>
      extends (perform (GetContext r) s1)
        (snd (scanAndCrop p r (canvases s1 ! r) (perform (GetContext r) s1)))"
      by (rule scanAndCrop_extends) (simp add: perform_def)
    from Some i e1 e2 e3 show ?thesis
      by (auto simp: trimCanvas_def Let_def intro: extends_trans)
  qed
qed

text \<open>
  C10. Whatever the argument (a surface or a decoded layer), the platform and the path
  taken, a call of \<^verbatim>\<open>trimCanvas\<close> leaves every canvas that existed before the call as it
  was, in width, height and pixels; the store can only have grown, and each of the calls
  that write pixels (\<^verbatim>\<open>putImageData\<close>, \<^verbatim>\<open>drawImage\<close>) made during the call has a canvas
  created during the call as its target.
\<close>

theorem trim_leaves_canvases_unchanged:
  assumes "trimCanvas p inp s = (res, s')"
  shows "length (canvases s) \<le> length (canvases s')
       \<and> (\<forall>r<length (canvases s). canvases s' ! r = canvases s ! r)
       \<and> (\<forall>c \<in> set (drop (length (calls s)) (calls s')). \<forall>r.
             writesTo c = Some r \<longrightarrow> length (canvases s) \<le> r)"
  using trimCanvas_extends [of s p inp] assms
  by (simp add: extends_def)

theorem trim_leaves_canvases_unchanged_witness:
  "length [halfRow]
     \<le> length (canvases (snd (trimCanvas quiet (Surface 0) \<lparr>canvases = [halfRow], calls = []\<rparr>)))
   \<and> canvases (snd (trimCanvas quiet (Surface 0) \<lparr>canvases = [halfRow], calls = []\<rparr>)) ! 0
       = halfRow"
  using trim_leaves_canvases_unchanged [of quiet "Surface 0" "\<lparr>canvases = [halfRow], calls = []\<rparr>"
      "fst (trimCanvas quiet (Surface 0) \<lparr>canvases = [halfRow], calls = []\<rparr>)"
      "snd (trimCanvas quiet (Surface 0) \<lparr>canvases = [halfRow], calls = []\<rparr>)"]
  by simp

section \<open>Counting the selected layers\<close>

lemma count_selected:
  "selected (count ls st) = selected st + length (filter selectedLeaf (nodes ls))"
  "selected (countLayer l st) = selected st + length (filter selectedLeaf (nodesOf l))"
  by (induction ls st and l st rule: count_countLayer.induct)
     (auto simp: selectedLeaf_def Let_def split: option.splits)

text \<open>The count of \<^verbatim>\<open>part_001\<close> gives the same number as \<^verbatim>\<open>stats.selected\<close> of \<^verbatim>\<open>App.tsx\<close>.\<close>

lemma countSelected_eq:
  "countSelected ls k = k + length (filter selectedLeaf (nodes ls))"
  "countSelectedLayer l k = k + length (filter selectedLeaf (nodesOf l))"
  by (induction ls k and l k rule: countSelected_countSelectedLayer.induct)
     (auto simp: selectedLeaf_def Let_def split: option.splits)

section \<open>Nothing selected\<close>

text \<open>
  C9, as the code has it. When no node of the tree is a selected layer, \<^verbatim>\<open>exportAssets\<close>
  makes no \<^verbatim>\<open>folder\<close>, \<^verbatim>\<open>file\<close> or \<^verbatim>\<open>generateAsync\<close> call, the archive stays empty and no
  canvas is touched; for a tree that is not empty the run ends with the alert that nothing
  is selected, and for the empty tree it ends at once, without a signal.
\<close>

theorem export_nothing_selected:
  assumes "selectedLeaves layers = []"
  shows "fst (exportAssets p cfg layers s) = (if layers = [] then Ignored else NothingSelected)
       \<and> filter sinkCall (effects (snd (exportAssets p cfg layers s))) = []
       \<and> files (snd (exportAssets p cfg layers s)) = []
       \<and> env (snd (exportAssets p cfg layers s)) = s
       \<and> (Alert \<in> set (effects (snd (exportAssets p cfg layers s))) \<longleftrightarrow> layers \<noteq> [])"
  using assms
  by (simp add: exportAssets_def Let_def count_selected selectedLeaves_def emit_def)

theorem export_nothing_selected_witness:
  "selectedLeaves [leaf ''layer-2'' ''leaf2'' False] = []
   \<and> fst (exportAssets quiet sampleSettings [leaf ''layer-2'' ''leaf2'' False] emptyWorld)
       = NothingSelected
   \<and> filter sinkCall (effects (snd (exportAssets quiet sampleSettings
        [leaf ''layer-2'' ''leaf2'' False] emptyWorld))) = []"
  using export_nothing_selected [of "[leaf ''layer-2'' ''leaf2'' False]" quiet sampleSettings emptyWorld]
  by (simp add: selectedLeaves_def leaf_def selectedLeaf_def)

text \<open>
  C9 as stated fails for the empty tree, in which no leaf is selected either: the first
  line of \<^verbatim>\<open>exportAssets\<close> returns before the alert, and the run has no effect at all.
\<close>

theorem export_empty_tree_ignored:
  "selectedLeaves [] = []
   \<and> exportAssets quiet sampleSettings [] emptyWorld
       = (Ignored, \<lparr>processedCount = 0, files = [], effects = [], env = emptyWorld\<rparr>)"
  by (simp add: selectedLeaves_def exportAssets_def)

section \<open>Progress of the walk\<close>

lemma publishedCounts_append [simp]:
  "publishedCounts (xs @ ys) = publishedCounts xs @ publishedCounts ys"
  by (simp add: publishedCounts_def map_filter_def)

lemma publishedCounts_simps [simp]:
  "publishedCounts [] = []"
  "publishedCounts (e # es) =
     (case publishedCount e of Some n \<Rightarrow> n # publishedCounts es | None \<Rightarrow> publishedCounts es)"
  by (simp_all add: publishedCounts_def map_filter_def split: option.splits)

lemma advances_refl: "advances 0 st st"
  by (simp add: advances_def)

lemma advances_trans:
  assumes "advances a st st1" "advances b st1 st2"
  shows "advances (a + b) st st2"
proof -
  from assms(1) obtain n1 where 1: "processedCount st1 = processedCount st + a"
    "effects st1 = effects st @ n1" "GenerateAsync \<notin> set n1"
    "publishedCounts n1 = [processedCount st + 1..<processedCount st + 1 + a]"
    by (auto simp: advances_def)
  from assms(2) obtain n2 where 2: "processedCount st2 = processedCount st1 + b"
    "effects st2 = effects st1 @ n2" "GenerateAsync \<notin> set n2"
    "publishedCounts n2 = [processedCount st1 + 1..<processedCount st1 + 1 + b]"
    by (auto simp: advances_def)
  have "[processedCount st + 1..<processedCount st + 1 + a]
          @ [processedCount st + a + 1..<processedCount st + a + 1 + b]
      = [processedCount st + 1..<processedCount st + 1 + (a + b)]"
    using upt_add_eq_append [of "processedCount st + 1" "processedCount st + 1 + a" b]
    by (simp add: add.assoc add.commute add.left_commute)
  with 1 2 show ?thesis
    unfolding advances_def
    by (intro conjI exI [of _ "n1 @ n2"]) (simp_all add: add.assoc)
qed

lemma zipFolder_advances: "advances 0 st (snd (zipFolder d n st))"
  by (simp add: zipFolder_def advances_def emit_def Let_def)

lemma exportLayer_advances: "advances 1 st (exportLayer rv p t name cn raw cz pp st)"
  by (auto simp: exportLayer_def advances_def emit_def zipFile_def Let_def
      split: prod.splits option.splits)

lemma exportable_append [simp]:
  "exportable cfg (xs @ ys) = (exportable cfg xs \<and> exportable cfg ys)"
  by (auto simp: exportable_def)

text \<open>The walk of every revision processes each selected leaf once, in the order of the
  tree.\<close>

lemma walk_advances:
  "exportable cfg (nodes ls) \<Longrightarrow>
     advances (length (filter selectedLeaf (nodes ls))) st (processLevel rv p cfg t ls cz pp st)"
  "exportable cfg (nodesOf l) \<Longrightarrow>
     advances (length (filter selectedLeaf (nodesOf l))) st (processLayer rv p cfg t l cz pp st)"
proof (induction rv p cfg t ls cz pp st and rv p cfg t l cz pp st
    rule: processLevel_processLayer.induct)
  case (1 rv p cfg totalLayers currentZip prefixPath st)
  show ?case by (simp add: advances_refl)
next
  case (2 rv p cfg totalLayers l ls currentZip prefixPath st)
  from 2 have a: "advances (length (filter selectedLeaf (nodesOf l))) st
      (processLayer rv p cfg totalLayers l currentZip prefixPath st)"
    by simp
  from 2 have b: "advances (length (filter selectedLeaf (nodes ls)))
      (processLayer rv p cfg totalLayers l currentZip prefixPath st)
      (processLevel rv p cfg totalLayers ls currentZip prefixPath
         (processLayer rv p cfg totalLayers l currentZip prefixPath st))"
    by simp
  from advances_trans [OF a b] show ?case by simp
next
  case (3 rv p cfg totalLayers i n t v op cs sel w h tp lf currentZip prefixPath st)
  let ?l = "PsdLayer i n t v op cs sel w h tp lf"
  let ?cn = "transformName n (namingStyle cfg)"
  show ?case
  proof (cases t)
    case Group
    obtain folder st1 where z: "zipFolder currentZip ?cn st = (folder, st1)"
      by fastforce
    have a: "advances 0 st st1"
      using zipFolder_advances [of st currentZip ?cn] z by simp
    have ns: "\<not> selectedLeaf ?l"
      using Group by (simp add: selectedLeaf_def)
    show ?thesis
    proof (cases cs)
      case None
      with Group z a ns show ?thesis
        by simp
    next
      case (Some kids)
      from "3.prems" Some have "exportable cfg (nodes kids)"
        by (simp add: exportable_def split: if_splits)
      with "3.IH" [OF refl Group refl z [symmetric] Some]
      have "advances (length (filter selectedLeaf (nodes kids))) st1
          (processLevel rv p cfg totalLayers kids folder
             (if useFolderPrefix cfg then prefixPath @ ?cn @ ''_'' else []) st1)"
        by simp
      from advances_trans [OF a this] Group Some z ns show ?thesis
        by (simp split: if_splits)
    qed
  next
    case Layer
    with "3.prems" have cs: "cs = None"
      by (simp add: exportable_def)
    have sl: "selectedLeaf ?l = sel"
      using Layer by (simp add: selectedLeaf_def)
    show ?thesis
    proof (cases sel)
      case False
      with Layer cs sl show ?thesis
        by (simp add: advances_refl)
    next
      case True
      with cs sl "3.prems" obtain raw where "layerMap cfg i = Some raw"
        by (auto simp: exportable_def)
      with Layer True cs sl
        exportLayer_advances [of st rv p totalLayers n ?cn raw currentZip prefixPath]
      show ?thesis
        by simp
    qed
  qed
qed

text \<open>
  C2. Take a tree in which only groups have children, with \<open>N \<ge> 1\<close> selected leaf layers,
  each with its decoded layer in the table. In a run of \<^verbatim>\<open>exportAssets\<close> the values of
  \<^verbatim>\<open>processedCount\<close> published by the progress updates are \<open>1, 2, \<dots>, N\<close> in this order, all of
  them are published before the archive is generated, and the archive is generated.
\<close>

theorem export_progress_counts:
  assumes "wellFormed layers" and "payloadsPresent cfg layers"
    and "N = length (selectedLeaves layers)" and "1 \<le> N"
  shows "publishedCounts (effects (snd (exportAssets p cfg layers s))) = [1..<Suc N]
       \<and> publishedCounts (takeWhile (\<lambda>e. e \<noteq> GenerateAsync)
             (effects (snd (exportAssets p cfg layers s)))) = [1..<Suc N]
       \<and> GenerateAsync \<in> set (effects (snd (exportAssets p cfg layers s)))"
proof -
  let ?st1 = "emit NewZip
      (emit (SetState \<lparr>status = Exporting, progress = 0, message = Initializing\<rparr>)
         \<lparr>processedCount = 0, files = [], effects = [], env = s\<rparr>)"
  let ?st2 = "processLevel App_tsx p cfg N layers [] [] ?st1"
  from assms(3,4) have ne: "layers \<noteq> []"
    by (auto simp: selectedLeaves_def)
  have tot: "selected (count layers \<lparr>total_count = 0, selected = 0, groups = 0\<rparr>) = N"
    by (simp add: count_selected assms(3) selectedLeaves_def)
  from assms(1,2) have "exportable cfg (nodes layers)"
    by (simp add: exportable_def wellFormed_def payloadsPresent_def selectedLeaves_def)
  from walk_advances(1) [OF this, of ?st1 App_tsx p N "[]" "[]"] assms(3)
  obtain new where new: "effects ?st2 = effects ?st1 @ new" "GenerateAsync \<notin> set new"
    "publishedCounts new = [1..<Suc N]"
    by (auto simp: advances_def selectedLeaves_def emit_def)
  let ?pre = "effects ?st1 @ new
      @ [SetState \<lparr>status = Exporting, progress = 99, message = Packing\<rparr>]"
  have pre: "\<forall>e \<in> set ?pre. e \<noteq> GenerateAsync"
    using new(2) by (auto simp: emit_def)
  obtain post where eff: "effects (snd (exportAssets p cfg layers s)) = ?pre @ GenerateAsync # post"
    and post: "publishedCounts post = []"
    using ne tot assms(4) new(1)
    by (cases "generateAsync p (files ?st2)")
       (auto simp: exportAssets_def Let_def emit_def)
  have tw: "takeWhile (\<lambda>e. e \<noteq> GenerateAsync) (?pre @ GenerateAsync # post) = ?pre"
    using pre by (subst takeWhile_tail) (simp_all add: takeWhile_eq_all_conv)
  have pc: "publishedCounts ?pre = [1..<Suc N]"
    using new(3) by (simp add: emit_def)
  show ?thesis
    unfolding eff tw using pc post by simp
qed

section \<open>The sample tree\<close>

lemma transformName_sample:
  "transformName ''GroupA'' Original = ''GroupA''"
  "transformName ''leaf1'' Original = ''leaf1''"
  "transformName ''leaf2'' Original = ''leaf2''"
  "transformName ''leaf3'' Original = ''leaf3''"
  by (simp_all add: transformName_def sanitize_def trim_def isSpace_def)

lemma trim_dotLayer:
  "trimCanvas quiet (Raw dotLayer) s =
     (Some \<lparr>t_canvas = length (canvases s), t_width = 1, t_height = 1\<rparr>,
      s\<lparr>canvases := canvases s @ [redDot],
        calls := calls s @ [CreateCanvas 1 1, GetContext (length (canvases s)), NewImageData 1 1,
          PutImageData (length (canvases s)), GetContext (length (canvases s)),
          GetImageData (length (canvases s))]\<rparr>)"
  by (simp add: trimCanvas_def imageDataToCanvas_def synthesize_def dotLayer_def quiet_def
      PIXEL_LIMIT_def TRIM_LIMIT_def perform_def alloc_def overwrite_def blank_def Let_def
      scanAndCrop_def scan_def visit_def alphaAt_def redDot_def)

lemma toBlob_quiet: "toBlob quiet c = Some (pixels c)"
  by (simp add: quiet_def)

lemma generateAsync_quiet: "generateAsync quiet a = Some []"
  by (simp add: quiet_def)

lemma exportLayer_dotLayer:
  "files (exportLayer rv quiet t name cn dotLayer cz pp st)
     = AList.update ((if fileInCurrentZip rv then cz else []) @ pp @ cn @ ''.png'')
         (File [255, 0, 0, 255]) (files st)"
  by (simp add: exportLayer_def trim_dotLayer emit_def zipFile_def Let_def toBlob_quiet redDot_def)

lemma sampleTree_nodes:
  "selectedLeaves sampleTree = [leaf ''layer-1'' ''leaf1'' True, leaf ''layer-3'' ''leaf3'' True]"
  "wellFormed sampleTree"
  by (simp_all add: selectedLeaves_def wellFormed_def sampleTree_def leaf_def selectedLeaf_def)

theorem export_progress_counts_witness:
  "wellFormed sampleTree \<and> payloadsPresent sampleSettings sampleTree
   \<and> length (selectedLeaves sampleTree) = 2
   \<and> publishedCounts (effects (snd (exportAssets quiet sampleSettings sampleTree emptyWorld)))
       = [1, 2]"
  using export_progress_counts [of sampleTree sampleSettings 2 quiet emptyWorld] sampleTree_nodes
  by (simp add: payloadsPresent_def sampleSettings_def leaf_def upt_conv_Cons)

text \<open>
  C1 at the sample tree, for \<^verbatim>\<open>exportAssets\<close> of \<^verbatim>\<open>src/App.tsx\<close>. The run ends with the download
  of an archive that holds the folder \<open>GroupA/\<close>, which is empty, and the two files
  \<open>leaf1.png\<close> and \<open>leaf3.png\<close>, both at the root: \<^verbatim>\<open>processLevel\<close> adds every file to the
  root object \<^verbatim>\<open>zip\<close>, not to \<^verbatim>\<open>currentZip\<close>. There is no entry \<open>GroupA/leaf1.png\<close>.
\<close>

theorem export_sample_App_tsx:
  "fst (exportAssets quiet sampleSettings sampleTree emptyWorld) = Downloaded []
   \<and> files (snd (exportAssets quiet sampleSettings sampleTree emptyWorld))
       = [(''GroupA/'', Folder), (''leaf1.png'', File [255, 0, 0, 255]),
          (''leaf3.png'', File [255, 0, 0, 255])]"
  by (simp add: exportAssets_def sampleTree_def sampleSettings_def leaf_def transformName_sample
      exportLayer_dotLayer zipFolder_def emit_def Let_def App_tsx_def generateAsync_quiet)

text \<open>The walk of the second revision in \<^verbatim>\<open>src/unnamed/part_000\<close>, which adds a file to
  \<^verbatim>\<open>currentZip\<close>, puts \<open>leaf1.png\<close> inside \<open>GroupA/\<close> on the same input.\<close>

lemma export_sample_part_000_second:
  "files (processLevel part_000_second quiet sampleSettings 2 sampleTree [] []
       \<lparr>processedCount = 0, files = [], effects = [], env = emptyWorld\<rparr>)
     = [(''GroupA/'', Folder), (''GroupA/leaf1.png'', File [255, 0, 0, 255]),
        (''leaf3.png'', File [255, 0, 0, 255])]"
  by (simp add: sampleTree_def sampleSettings_def leaf_def transformName_sample
      exportLayer_dotLayer zipFolder_def emit_def Let_def part_000_second_def)

end
